theory Spec2Isabelle
  imports Complex_Main
begin

section \<open>EchoCast: the event-log reconciliation of the overlay\<close>

text \<open>
  The development embeds the state updater that \<^verbatim>\<open>EventOverlay.tsx\<close> passes to
  \<^verbatim>\<open>setLogs\<close> for every \<^verbatim>\<open>input-event\<close>, together with the label helpers it
  uses. JavaScript strings are modelled as \<^typ>\<open>string\<close> (one \<^typ>\<open>char\<close> per code
  unit below 256), the millisecond timestamps as \<^typ>\<open>int\<close>, the repeat counter as
  \<^typ>\<open>nat\<close> and the numeric id as \<^typ>\<open>real\<close> (the rounding of the floating-point
  sum that produces an id is not modelled; nothing below depends on it).
\<close>

subsection \<open>Data model\<close>

datatype event_type =
  Mousemove | Mousedown | Mouseup | Click | Doubleclick | Key | System | Dragstart | Drag

record InputEventPayload =
  event_type :: event_type
  label :: string
  timestamp :: int

text \<open>
  The field \<^verbatim>\<open>id\<close> is called \<open>id_item\<close>, since \<open>id\<close> is the identity function of
  HOL. The optional field \<^verbatim>\<open>isTypingSequence?: boolean\<close> is \<open>None\<close> when the
  object literal that created the item does not mention it.
\<close>

record LogItem =
  id_item :: real
  payload :: InputEventPayload
  count :: nat
  isTypingSequence :: "bool option"

subsection \<open>Label helpers\<close>

text \<open>Without the \<^verbatim>\<open>s\<close> flag, \<^verbatim>\<open>.\<close> matches every code unit but a line terminator.\<close>

definition line_terminator :: "char \<Rightarrow> bool" where
  "line_terminator c \<longleftrightarrow> c = CHR 0x0A \<or> c = CHR 0x0D"

text \<open>\<^verbatim>\<open>s.replace(/^@key\[/i, '')\<close>\<close>

definition strip_key_prefix :: "string \<Rightarrow> string" where
  "strip_key_prefix s =
     (case s of
        a # k # e # y # b # rest \<Rightarrow>
          if a = CHR ''@'' \<and> (k = CHR ''k'' \<or> k = CHR ''K'') \<and> (e = CHR ''e'' \<or> e = CHR ''E'')
             \<and> (y = CHR ''y'' \<or> y = CHR ''Y'') \<and> b = CHR ''[''
          then rest else s
      | _ \<Rightarrow> s)"

text \<open>\<^verbatim>\<open>s.replace(/\]$/, '')\<close>: without the \<^verbatim>\<open>m\<close> flag, \<^verbatim>\<open>$\<close> is the end of the input.\<close>

definition strip_close :: "string \<Rightarrow> string" where
  "strip_close s = (if s \<noteq> [] \<and> last s = CHR '']'' then butlast s else s)"

text \<open>\<^verbatim>\<open>lbl.replace(/^@key\[/i, '').replace(/\]$/, '')\<close>, the bare content of a key label.\<close>

definition bare_label :: "string \<Rightarrow> string" where
  "bare_label lbl = strip_close (strip_key_prefix lbl)"

text \<open>\<^verbatim>\<open>const isTextKey = (lbl: string) => /^[a-zA-Z0-9]$/.test(lbl)\<close>\<close>

definition in_range :: "char \<Rightarrow> char \<Rightarrow> char \<Rightarrow> bool" where
  "in_range lo hi c \<longleftrightarrow> (of_char lo :: nat) \<le> of_char c \<and> (of_char c :: nat) \<le> of_char hi"

definition alnum :: "char \<Rightarrow> bool" where
  "alnum c \<longleftrightarrow> in_range CHR ''a'' CHR ''z'' c \<or> in_range CHR ''A'' CHR ''Z'' c
     \<or> in_range CHR ''0'' CHR ''9'' c"

definition isTextKey :: "string \<Rightarrow> bool" where
  "isTextKey lbl = (case lbl of [c] \<Rightarrow> alnum c | _ \<Rightarrow> False)"

text \<open>
  \<^verbatim>\<open>label.match(/\[(.*?)\]/)\<close>: the leftmost \<^verbatim>\<open>[\<close> from which a \<^verbatim>\<open>]\<close> is reached
  without crossing a line terminator; the lazy group is what lies between that \<^verbatim>\<open>[\<close>
  and the first \<^verbatim>\<open>]\<close> after it. \<open>lazy_group\<close> is the part after the opening bracket.
\<close>

fun lazy_group :: "string \<Rightarrow> string option" where
  "lazy_group [] = None"
| "lazy_group (c # cs) =
     (if c = CHR '']'' then Some []
      else if line_terminator c then None
      else map_option ((#) c) (lazy_group cs))"

fun btnMatch :: "string \<Rightarrow> string option" where
  "btnMatch [] = None"
| "btnMatch (c # cs) =
     (if c = CHR ''['' then (case lazy_group cs of Some g \<Rightarrow> Some g | None \<Rightarrow> btnMatch cs)
      else btnMatch cs)"

text \<open>\<^verbatim>\<open>payload.label.replace(/^@.*?\[/, '').replace(/\]$/, '')\<close>\<close>

fun lazy_open :: "string \<Rightarrow> string option" where
  "lazy_open [] = None"
| "lazy_open (c # cs) =
     (if c = CHR ''['' then Some cs
      else if line_terminator c then None
      else lazy_open cs)"

definition strip_tag_prefix :: "string \<Rightarrow> string" where
  "strip_tag_prefix s =
     (case s of
        [] \<Rightarrow> s
      | c # cs \<Rightarrow> if c = CHR ''@'' then (case lazy_open cs of Some r \<Rightarrow> r | None \<Rightarrow> s) else s)"

definition getDisplayLabel :: "InputEventPayload \<Rightarrow> string" where
  "getDisplayLabel p = strip_close (strip_tag_prefix (label p))"

subsection \<open>The pattern built from the button name\<close>

text \<open>
  \<^verbatim>\<open>new RegExp(`\\[${btnName}\\]`)\<close> pastes the button name into the pattern source
  as it is. The fragment of pattern sources modelled here consists of the escaped brackets
  \<^verbatim>\<open>\[\<close> and \<^verbatim>\<open>\]\<close>, the wildcard \<^verbatim>\<open>.\<close> and every character that is not a
  syntax character of the pattern language, which stands for itself. A source outside the
  fragment is handed to the parameter \<open>rx\<close>, the engine of the host: it answers \<open>None\<close>
  where the constructor throws a \<^verbatim>\<open>SyntaxError\<close>, and otherwise the test whether
  \<^verbatim>\<open>String.prototype.match\<close> finds a match.
\<close>

datatype atom = Lit char | AnyChar

type_synonym regexp = "string \<Rightarrow> bool"
type_synonym engine = "string \<Rightarrow> regexp option"

definition syntax_char :: "char \<Rightarrow> bool" where
  "syntax_char c \<longleftrightarrow> c \<in> set ''^$.*+?()[]{}|'' \<or> c = CHR 0x5C"

fun parse_atoms :: "string \<Rightarrow> atom list option" where
  "parse_atoms [] = Some []"
| "parse_atoms [c] =
     (if c = CHR ''.'' then Some [AnyChar]
      else if syntax_char c then None
      else Some [Lit c])"
| "parse_atoms (c # d # ds) =
     (if c = CHR 0x5C then
        (if d = CHR ''['' \<or> d = CHR '']'' then map_option ((#) (Lit d)) (parse_atoms ds) else None)
      else if c = CHR ''.'' then map_option ((#) AnyChar) (parse_atoms (d # ds))
      else if syntax_char c then None
      else map_option ((#) (Lit c)) (parse_atoms (d # ds)))"

fun atom_matches :: "atom \<Rightarrow> char \<Rightarrow> bool" where
  "atom_matches (Lit a) c \<longleftrightarrow> a = c"
| "atom_matches AnyChar c \<longleftrightarrow> \<not> line_terminator c"

fun matches_here :: "atom list \<Rightarrow> string \<Rightarrow> bool" where
  "matches_here [] s \<longleftrightarrow> True"
| "matches_here (a # as) [] \<longleftrightarrow> False"
| "matches_here (a # as) (c # cs) \<longleftrightarrow> atom_matches a c \<and> matches_here as cs"

fun matches_somewhere :: "atom list \<Rightarrow> string \<Rightarrow> bool" where
  "matches_somewhere as [] \<longleftrightarrow> matches_here as []"
| "matches_somewhere as (c # cs) \<longleftrightarrow> matches_here as (c # cs) \<or> matches_somewhere as cs"

definition new_RegExp :: "engine \<Rightarrow> string \<Rightarrow> regexp option" where
  "new_RegExp rx src =
     (case parse_atoms src of Some as \<Rightarrow> Some (matches_somewhere as) | None \<Rightarrow> rx src)"

text \<open>\<^verbatim>\<open>new RegExp(`\\[${btnName}\\]`)\<close>\<close>

definition clickPattern :: "engine \<Rightarrow> string \<Rightarrow> regexp option" where
  "clickPattern rx btnName = new_RegExp rx ([CHR 0x5C, CHR ''[''] @ btnName @ [CHR 0x5C, CHR '']''])"

subsection \<open>The updater\<close>

datatype error = SyntaxError

text \<open>\<^verbatim>\<open>newLogs.length > 20 ? newLogs.slice(newLogs.length - 20) : newLogs\<close>\<close>

definition keep_last20 :: "LogItem list \<Rightarrow> LogItem list" where
  "keep_last20 newLogs = (if length newLogs > 20 then drop (length newLogs - 20) newLogs else newLogs)"

text \<open>\<^verbatim>\<open>lastLog?.payload.event_type\<close>, with \<open>None\<close> for \<^verbatim>\<open>undefined\<close>.\<close>

definition last_event_type :: "LogItem list \<Rightarrow> event_type option" where
  "last_event_type prevLogs =
     (if prevLogs = [] then None else Some (event_type (payload (last prevLogs))))"

text \<open>
  The callback of \<^verbatim>\<open>prevLogs.filter\<close> in the click and double-click branches;
  \<open>kinds\<close> is the array given to \<^verbatim>\<open>includes\<close>.
\<close>

definition keeps :: "event_type list \<Rightarrow> regexp \<Rightarrow> InputEventPayload \<Rightarrow> LogItem \<Rightarrow> bool" where
  "keeps kinds pat newEvent log_item =
     (if timestamp newEvent - timestamp (payload log_item) > 500 then True
      else if event_type (payload log_item) \<in> set kinds \<and> pat (label (payload log_item))
      then False
      else True)"

definition cleanup ::
  "engine \<Rightarrow> event_type list \<Rightarrow> string \<Rightarrow> real \<Rightarrow> InputEventPayload \<Rightarrow> LogItem list
     \<Rightarrow> error + LogItem list" where
  "cleanup rx kinds btnName new_id newEvent prevLogs =
     (case clickPattern rx btnName of
        None \<Rightarrow> Inl SyntaxError
      | Some pat \<Rightarrow>
          Inr (filter (keeps kinds pat newEvent) prevLogs
               @ [\<lparr>id_item = new_id, payload = newEvent, count = 1, isTypingSequence = None\<rparr>]))"

text \<open>The branch \<^verbatim>\<open>if (newEvent.event_type === 'key')\<close>.\<close>

definition key_update :: "real \<Rightarrow> InputEventPayload \<Rightarrow> LogItem list \<Rightarrow> LogItem list" where
  "key_update new_id newEvent prevLogs =
     (let newLabel = bare_label (label newEvent) in
      if last_event_type prevLogs = Some Key \<and> label (payload (last prevLogs)) = label newEvent
      then butlast prevLogs @ [(last prevLogs)\<lparr>count := count (last prevLogs) + 1\<rparr>]
      else if last_event_type prevLogs = Some Key \<and> isTextKey newLabel
              \<and> isTypingSequence (last prevLogs) = Some True
      then butlast prevLogs @
             [(last prevLogs)
                \<lparr>payload := (payload (last prevLogs))
                    \<lparr>label := ''@Key['' @ bare_label (label (payload (last prevLogs))) @ newLabel @ '']'',
                     timestamp := timestamp newEvent\<rparr>,
                 count := 1\<rparr>]
      else keep_last20
             (prevLogs @ [\<lparr>id_item = new_id, payload = newEvent, count = 1,
                           isTypingSequence = Some (isTextKey newLabel)\<rparr>]))"

text \<open>
  The function given to \<^verbatim>\<open>setLogs\<close>. \<open>now\<close> and \<open>rnd\<close> are the values that
  \<^verbatim>\<open>Date.now()\<close> and \<^verbatim>\<open>Math.random()\<close> return when the updater creates an item.
\<close>

definition setLogs_updater ::
  "engine \<Rightarrow> int \<Rightarrow> real \<Rightarrow> InputEventPayload \<Rightarrow> LogItem list \<Rightarrow> error + LogItem list" where
  "setLogs_updater rx now rnd newEvent prevLogs =
     (if event_type newEvent = Mousemove \<and> last_event_type prevLogs = Some Mousemove
      then Inr (butlast prevLogs @
                  [(last prevLogs)\<lparr>payload := newEvent, count := count (last prevLogs) + 1\<rparr>])
      else if event_type newEvent = Key
      then Inr (key_update (of_int now + rnd) newEvent prevLogs)
      else if event_type newEvent = Click
              \<and> btnMatch (label newEvent) \<noteq> None \<and> btnMatch (label newEvent) \<noteq> Some []
      then cleanup rx [Mousedown, Mouseup] (the (btnMatch (label newEvent))) (of_int now + rnd)
             newEvent prevLogs
      else if event_type newEvent = Doubleclick
              \<and> btnMatch (label newEvent) \<noteq> None \<and> btnMatch (label newEvent) \<noteq> Some []
      then cleanup rx [Click, Mousedown, Mouseup] (the (btnMatch (label newEvent)))
             (of_int now + rnd) newEvent prevLogs
      else Inr (keep_last20
                  (prevLogs @ [\<lparr>id_item = of_int now + rnd, payload = newEvent, count = 1,
                                isTypingSequence = None\<rparr>])))"

text \<open>
  The listener of \<^verbatim>\<open>input-event\<close>: while the settings are open
  (\<^verbatim>\<open>showSettingsRef.current\<close>) it returns before \<^verbatim>\<open>setLogs\<close> is called.
\<close>

definition on_input_event ::
  "engine \<Rightarrow> int \<Rightarrow> real \<Rightarrow> bool \<Rightarrow> InputEventPayload \<Rightarrow> LogItem list \<Rightarrow> error + LogItem list" where
  "on_input_event rx now rnd paused newEvent prevLogs =
     (if paused then Inr prevLogs else setLogs_updater rx now rnd newEvent prevLogs)"

subsection \<open>Sample rows\<close>

text \<open>Rows of kind \<^verbatim>\<open>system\<close> with distinct ids, used to build full logs in examples.\<close>

definition system_row :: "nat \<Rightarrow> LogItem" where
  "system_row i =
     \<lparr>id_item = real i,
      payload = \<lparr>event_type = System, label = ''@system[Focus]'', timestamp = int i\<rparr>,
      count = 1, isTypingSequence = None\<rparr>"

definition system_rows :: "nat \<Rightarrow> LogItem list" where
  "system_rows n = map system_row [0..<n]"

section \<open>Properties\<close>

subsection \<open>The capacity slice and the label helpers\<close>

lemma length_keep_last20: "length (keep_last20 xs) \<le> 20"
  by (simp add: keep_last20_def)

lemma keep_last20_snoc: "keep_last20 (xs @ [x]) = drop (length xs - 19) xs @ [x]"
  by (simp add: keep_last20_def)

lemma strip_close_snoc: "strip_close (s @ '']'') = s"
  by (simp add: strip_close_def)

lemma bare_label_wrap: "bare_label (''@Key['' @ s @ '']'') = s"
  by (simp add: bare_label_def strip_key_prefix_def strip_close_snoc)

lemma getDisplayLabel_wrap:
  "label p = ''@Key['' @ s @ '']'' \<Longrightarrow> getDisplayLabel p = s"
  by (simp add: getDisplayLabel_def strip_tag_prefix_def line_terminator_def strip_close_snoc)

subsection \<open>The key branch\<close>

lemma key_update_new:
  assumes "\<not> (last_event_type prevLogs = Some Key
              \<and> (label (payload (last prevLogs)) = label newEvent
                   \<or> isTextKey (bare_label (label newEvent))
                      \<and> isTypingSequence (last prevLogs) = Some True))"
  shows "key_update new_id newEvent prevLogs =
           drop (length prevLogs - 19) prevLogs
             @ [\<lparr>id_item = new_id, payload = newEvent, count = 1,
                 isTypingSequence = Some (isTextKey (bare_label (label newEvent)))\<rparr>]"
  using assms by (auto simp add: key_update_def Let_def keep_last20_snoc)

lemma key_update_continue:
  assumes "event_type (payload l) = Key" and "isTypingSequence l = Some True"
    and "label (payload l) \<noteq> label newEvent" and "isTextKey (bare_label (label newEvent))"
  shows "key_update new_id newEvent (xs @ [l]) =
           xs @ [l\<lparr>payload := (payload l)
                     \<lparr>label := ''@Key['' @ bare_label (label (payload l))
                                 @ bare_label (label newEvent) @ '']'',
                      timestamp := timestamp newEvent\<rparr>,
                   count := 1\<rparr>]"
  using assms by (simp add: key_update_def Let_def last_event_type_def)

subsection \<open>Merging into the last row\<close>

text \<open>
  Claim C9 (pointer-move coalescing). When the log is not empty, its last row is a
  pointer-move and the incoming event is a pointer-move, the updater returns the log with
  the same length and the same rows before the last one; the last row keeps its id, stores
  the incoming event and has its \<open>count\<close> increased by one. Consequently two pointer-moves
  in a row, arriving at a log that is empty or does not end in a pointer-move, leave one new
  row with \<open>count\<close> 2 holding the second event.
\<close>

theorem mousemove_coalescing:
  "(prevLogs \<noteq> [] \<and> event_type (payload (last prevLogs)) = Mousemove
      \<and> event_type newEvent = Mousemove \<longrightarrow>
      on_input_event rx now rnd False newEvent prevLogs =
        Inr (butlast prevLogs @
               [(last prevLogs)\<lparr>payload := newEvent, count := count (last prevLogs) + 1\<rparr>])
      \<and> (\<forall>newLogs. on_input_event rx now rnd False newEvent prevLogs = Inr newLogs \<longrightarrow>
             length newLogs = length prevLogs \<and> butlast newLogs = butlast prevLogs))
   \<and> (last_event_type prevLogs \<noteq> Some Mousemove
        \<and> event_type move = Mousemove \<and> event_type move' = Mousemove \<longrightarrow>
      (\<exists>logs1. on_input_event rx now rnd False move prevLogs = Inr logs1
         \<and> on_input_event rx now' rnd' False move' logs1 =
             Inr (keep_last20 (prevLogs @
                    [\<lparr>id_item = of_int now + rnd, payload = move', count = 2,
                      isTypingSequence = None\<rparr>]))))"
  by (auto simp add: on_input_event_def setLogs_updater_def last_event_type_def keep_last20_snoc
      butlast_append)

theorem mousemove_coalescing_witness:
  "[\<lparr>id_item = 3, payload = \<lparr>event_type = Mousemove, label = ''@move[10,10]'', timestamp = 0\<rparr>,
      count = 1, isTypingSequence = None\<rparr>] \<noteq> []
   \<and> on_input_event Map.empty 0 0 False
        \<lparr>event_type = Mousemove, label = ''@move[12,11]'', timestamp = 16\<rparr>
        [\<lparr>id_item = 3,
          payload = \<lparr>event_type = Mousemove, label = ''@move[10,10]'', timestamp = 0\<rparr>,
          count = 1, isTypingSequence = None\<rparr>]
      = Inr [\<lparr>id_item = 3,
          payload = \<lparr>event_type = Mousemove, label = ''@move[12,11]'', timestamp = 16\<rparr>,
          count = 2, isTypingSequence = None\<rparr>]
   \<and> last_event_type [] \<noteq> Some Mousemove
   \<and> (\<exists>logs1. on_input_event Map.empty 5 0 False
                  \<lparr>event_type = Mousemove, label = ''@move[10,10]'', timestamp = 0\<rparr> [] = Inr logs1
         \<and> on_input_event Map.empty 9 0 False
              \<lparr>event_type = Mousemove, label = ''@move[12,11]'', timestamp = 16\<rparr> logs1
            = Inr [\<lparr>id_item = 5,
                payload = \<lparr>event_type = Mousemove, label = ''@move[12,11]'', timestamp = 16\<rparr>,
                count = 2, isTypingSequence = None\<rparr>])"
  using mousemove_coalescing [where prevLogs =
      "[\<lparr>id_item = 3,
         payload = \<lparr>event_type = Mousemove, label = ''@move[10,10]'', timestamp = 0\<rparr>,
         count = 1, isTypingSequence = None\<rparr>]"
      and newEvent = "\<lparr>event_type = Mousemove, label = ''@move[12,11]'', timestamp = 16\<rparr>"
      and rx = Map.empty and now = 0 and rnd = 0]
    mousemove_coalescing [where prevLogs = "[]"
      and move = "\<lparr>event_type = Mousemove, label = ''@move[10,10]'', timestamp = 0\<rparr>"
      and move' = "\<lparr>event_type = Mousemove, label = ''@move[12,11]'', timestamp = 16\<rparr>"
      and rx = Map.empty and now = 5 and rnd = 0 and now' = 9 and rnd' = 0]
  by (simp add: last_event_type_def keep_last20_def)

text \<open>
  Claim C6 (exact repeat). When the last row is a key event and the incoming key event
  carries the very same full label, the updater returns the log with the last row's
  \<open>count\<close> increased by one and nothing else changed: the length of the log, the rows
  before the last one, and the payload (label and timestamp), the typing mark and the id of
  the last row are what they were, so no concatenation takes place.
\<close>

theorem exact_key_repeat:
  assumes "prevLogs \<noteq> []"
    and "event_type (payload (last prevLogs)) = Key"
    and "event_type newEvent = Key"
    and "label (payload (last prevLogs)) = label newEvent"
  shows "on_input_event rx now rnd False newEvent prevLogs =
           Inr (butlast prevLogs @ [(last prevLogs)\<lparr>count := count (last prevLogs) + 1\<rparr>])
         \<and> (\<forall>newLogs. on_input_event rx now rnd False newEvent prevLogs = Inr newLogs \<longrightarrow>
               length newLogs = length prevLogs
               \<and> butlast newLogs = butlast prevLogs
               \<and> count (last newLogs) = count (last prevLogs) + 1
               \<and> payload (last newLogs) = payload (last prevLogs)
               \<and> isTypingSequence (last newLogs) = isTypingSequence (last prevLogs)
               \<and> id_item (last newLogs) = id_item (last prevLogs))"
  using assms
  by (auto simp add: on_input_event_def setLogs_updater_def key_update_def last_event_type_def)

theorem exact_key_repeat_witness:
  "[\<lparr>id_item = 7, payload = \<lparr>event_type = Key, label = ''@key[Up]'', timestamp = 0\<rparr>,
      count = 1, isTypingSequence = Some False\<rparr>] \<noteq> []
   \<and> event_type (payload (last [\<lparr>id_item = 7,
         payload = \<lparr>event_type = Key, label = ''@key[Up]'', timestamp = 0\<rparr>,
         count = 1, isTypingSequence = Some False\<rparr>])) = Key
   \<and> on_input_event Map.empty 0 0 False
        \<lparr>event_type = Key, label = ''@key[Up]'', timestamp = 30\<rparr>
        [\<lparr>id_item = 7, payload = \<lparr>event_type = Key, label = ''@key[Up]'', timestamp = 0\<rparr>,
          count = 1, isTypingSequence = Some False\<rparr>]
      = Inr [\<lparr>id_item = 7, payload = \<lparr>event_type = Key, label = ''@key[Up]'', timestamp = 0\<rparr>,
          count = 2, isTypingSequence = Some False\<rparr>]"
  using exact_key_repeat [of
      "[\<lparr>id_item = 7, payload = \<lparr>event_type = Key, label = ''@key[Up]'', timestamp = 0\<rparr>,
         count = 1, isTypingSequence = Some False\<rparr>]"
      "\<lparr>event_type = Key, label = ''@key[Up]'', timestamp = 30\<rparr>" Map.empty 0 0]
  by simp

subsection \<open>Typing sequences\<close>

text \<open>
  Claim C2 as stated asks that a character is concatenated only onto a last row whose bare
  content is itself a single alphanumeric character. The updater tests the incoming
  character and the typing mark of the last row only: a row that already holds the word
  \<open>ab\<close> takes the next character.
\<close>

theorem typing_continuation_after_word_counterexample:
  "event_type (payload \<lparr>id_item = 4,
       payload = \<lparr>event_type = Key, label = ''@Key[ab]'', timestamp = 10\<rparr>,
       count = 1, isTypingSequence = Some True\<rparr>) = Key
   \<and> isTypingSequence \<lparr>id_item = 4,
       payload = \<lparr>event_type = Key, label = ''@Key[ab]'', timestamp = 10\<rparr>,
       count = 1, isTypingSequence = Some True\<rparr> = Some True
   \<and> ''@key[c]'' \<noteq> ''@Key[ab]''
   \<and> isTextKey (bare_label ''@key[c]'')
   \<and> 1 < length (bare_label ''@Key[ab]'')
   \<and> \<not> isTextKey (bare_label ''@Key[ab]'')
   \<and> on_input_event Map.empty 0 0 False
        \<lparr>event_type = Key, label = ''@key[c]'', timestamp = 20\<rparr>
        [\<lparr>id_item = 4, payload = \<lparr>event_type = Key, label = ''@Key[ab]'', timestamp = 10\<rparr>,
          count = 1, isTypingSequence = Some True\<rparr>]
      = Inr [\<lparr>id_item = 4,
              payload = \<lparr>event_type = Key, label = ''@Key[abc]'', timestamp = 20\<rparr>,
              count = 1, isTypingSequence = Some True\<rparr>]"
  by (simp add: on_input_event_def setLogs_updater_def key_update_def last_event_type_def
      bare_label_def strip_key_prefix_def strip_close_def isTextKey_def alnum_def in_range_def)

text \<open>
  Claim C2, amended. When the last row is a key event marked \<open>isTypingSequence\<close> and the
  incoming key event has a different full label and a bare content that is a single
  alphanumeric character, typing continuation happens whatever the length of the last row's
  bare content: the last row is replaced by one whose label is \<^verbatim>\<open>@Key[\<close>, the old bare
  content followed by the new character, and \<^verbatim>\<open>]\<close>, whose timestamp is the incoming
  one and whose \<open>count\<close> is 1; the other rows are unchanged.
\<close>

theorem typing_continuation:
  assumes "prevLogs \<noteq> []"
    and "event_type (payload (last prevLogs)) = Key"
    and "isTypingSequence (last prevLogs) = Some True"
    and "event_type newEvent = Key"
    and "label newEvent \<noteq> label (payload (last prevLogs))"
    and "isTextKey (bare_label (label newEvent))"
  shows "on_input_event rx now rnd False newEvent prevLogs =
           Inr (butlast prevLogs @
                  [(last prevLogs)
                     \<lparr>payload := (payload (last prevLogs))
                         \<lparr>label := ''@Key['' @ bare_label (label (payload (last prevLogs)))
                                     @ bare_label (label newEvent) @ '']'',
                          timestamp := timestamp newEvent\<rparr>,
                      count := 1\<rparr>])"
  using assms
  by (auto simp add: on_input_event_def setLogs_updater_def key_update_def last_event_type_def Let_def)

theorem typing_continuation_witness:
  "[\<lparr>id_item = 4, payload = \<lparr>event_type = Key, label = ''@Key[ab]'', timestamp = 10\<rparr>,
      count = 1, isTypingSequence = Some True\<rparr>] \<noteq> []
   \<and> isTextKey (bare_label (label \<lparr>event_type = Key, label = ''@key[c]'', timestamp = 20\<rparr>))
   \<and> on_input_event Map.empty 0 0 False
        \<lparr>event_type = Key, label = ''@key[c]'', timestamp = 20\<rparr>
        [\<lparr>id_item = 4, payload = \<lparr>event_type = Key, label = ''@Key[ab]'', timestamp = 10\<rparr>,
          count = 1, isTypingSequence = Some True\<rparr>]
      = Inr [\<lparr>id_item = 4,
              payload = \<lparr>event_type = Key, label = ''@Key[abc]'', timestamp = 20\<rparr>,
              count = 1, isTypingSequence = Some True\<rparr>]"
proof -
  have text_key: "isTextKey (bare_label (label \<lparr>event_type = Key, label = ''@key[c]'', timestamp = 20\<rparr>))"
    by (simp add: bare_label_def strip_key_prefix_def strip_close_def isTextKey_def alnum_def
        in_range_def)
  have word: "bare_label ''@Key[ab]'' = ''ab''" and char: "bare_label ''@key[c]'' = ''c''"
    by (simp_all add: bare_label_def strip_key_prefix_def strip_close_def)
  show ?thesis
    using text_key word char
      typing_continuation [of
        "[\<lparr>id_item = 4, payload = \<lparr>event_type = Key, label = ''@Key[ab]'', timestamp = 10\<rparr>,
           count = 1, isTypingSequence = Some True\<rparr>]"
        "\<lparr>event_type = Key, label = ''@key[c]'', timestamp = 20\<rparr>" Map.empty 0 0]
    by simp
qed

text \<open>
  Claim C3 (typing assembly). Starting from a log whose last row does not merge with the
  first event, three key events with pairwise distinct full labels and bare contents \<open>a\<close>,
  \<open>b\<close>, \<open>c\<close>, each a single alphanumeric character, are all accepted and leave, after the
  rows kept from the starting log, a single row whose displayed content is \<open>abc\<close>, whose
  \<open>count\<close> is 1 and whose timestamp is that of the third event.
\<close>

theorem typing_assembly:
  assumes kinds: "event_type e1 = Key" "event_type e2 = Key" "event_type e3 = Key"
    and bare: "bare_label (label e1) = [a]" "bare_label (label e2) = [b]"
      "bare_label (label e3) = [c]"
    and chars: "alnum a" "alnum b" "alnum c"
    and labels: "distinct [label e1, label e2, label e3]"
    and fresh: "\<not> (last_event_type prevLogs = Some Key
                    \<and> (label (payload (last prevLogs)) = label e1
                         \<or> isTypingSequence (last prevLogs) = Some True))"
  shows "\<exists>logs1 logs2 logs3 row.
           on_input_event rx n1 r1 False e1 prevLogs = Inr logs1
           \<and> on_input_event rx n2 r2 False e2 logs1 = Inr logs2
           \<and> on_input_event rx n3 r3 False e3 logs2 = Inr logs3
           \<and> logs3 = drop (length prevLogs - 19) prevLogs @ [row]
           \<and> getDisplayLabel (payload row) = [a, b, c]
           \<and> count row = 1
           \<and> timestamp (payload row) = timestamp e3
           \<and> id_item row = of_int n1 + r1
           \<and> isTypingSequence row = Some True"
proof -
  let ?keep = "drop (length prevLogs - 19) prevLogs"
  let ?row1 = "\<lparr>id_item = of_int n1 + r1, payload = e1, count = 1,
                 isTypingSequence = Some True\<rparr>"
  let ?row2 = "?row1\<lparr>payload := e1\<lparr>label := ''@Key['' @ [a] @ [b] @ '']'',
                                     timestamp := timestamp e2\<rparr>, count := 1\<rparr>"
  let ?row3 = "?row2\<lparr>payload := (payload ?row2)\<lparr>label := ''@Key['' @ [a, b] @ [c] @ '']'',
                                     timestamp := timestamp e3\<rparr>, count := 1\<rparr>"
  have t1: "isTextKey (bare_label (label e1))" and t2: "isTextKey (bare_label (label e2))"
    and t3: "isTextKey (bare_label (label e3))"
    using bare chars by (simp_all add: isTextKey_def)
  have s1: "on_input_event rx n1 r1 False e1 prevLogs = Inr (?keep @ [?row1])"
    using kinds(1) fresh t1
    by (simp add: on_input_event_def setLogs_updater_def key_update_new)
  have s2: "on_input_event rx n2 r2 False e2 (?keep @ [?row1]) = Inr (?keep @ [?row2])"
    using kinds(1,2) labels t2 bare(1,2)
    by (simp add: on_input_event_def setLogs_updater_def key_update_continue)
  have "bare_label (label (payload ?row2)) = [a, b]"
    using bare_label_wrap [of "[a, b]"] by simp
  moreover from this have "label (payload ?row2) \<noteq> label e3"
    using bare(3) by auto
  ultimately have s3: "on_input_event rx n3 r3 False e3 (?keep @ [?row2]) = Inr (?keep @ [?row3])"
    using kinds(1,3) t3 bare(3)
    by (simp add: on_input_event_def setLogs_updater_def key_update_continue)
  have "getDisplayLabel (payload ?row3) = [a, b, c]"
    by (rule getDisplayLabel_wrap) simp
  with s1 s2 s3 show ?thesis
    by (intro exI [of _ "?keep @ [?row1]"] exI [of _ "?keep @ [?row2]"]
        exI [of _ "?keep @ [?row3]"] exI [of _ ?row3]) simp
qed

theorem typing_assembly_witness:
  "bare_label (label \<lparr>event_type = Key, label = ''@key[a]'', timestamp = 1\<rparr>) = [CHR ''a'']
   \<and> bare_label (label \<lparr>event_type = Key, label = ''@key[b]'', timestamp = 2\<rparr>) = [CHR ''b'']
   \<and> bare_label (label \<lparr>event_type = Key, label = ''@key[c]'', timestamp = 3\<rparr>) = [CHR ''c'']
   \<and> alnum CHR ''a'' \<and> alnum CHR ''b'' \<and> alnum CHR ''c''
   \<and> distinct [''@key[a]'', ''@key[b]'', ''@key[c]'']
   \<and> last_event_type [] \<noteq> Some Key
   \<and> (\<exists>logs1 logs2 logs3 row.
         on_input_event Map.empty 0 0 False
           \<lparr>event_type = Key, label = ''@key[a]'', timestamp = 1\<rparr> [] = Inr logs1
         \<and> on_input_event Map.empty 0 0 False
             \<lparr>event_type = Key, label = ''@key[b]'', timestamp = 2\<rparr> logs1 = Inr logs2
         \<and> on_input_event Map.empty 0 0 False
             \<lparr>event_type = Key, label = ''@key[c]'', timestamp = 3\<rparr> logs2 = Inr logs3
         \<and> logs3 = [row]
         \<and> getDisplayLabel (payload row) = ''abc''
         \<and> count row = 1
         \<and> timestamp (payload row) = 3
         \<and> id_item row = 0
         \<and> isTypingSequence row = Some True)"
proof -
  have bare: "bare_label (label \<lparr>event_type = Key, label = ''@key[a]'', timestamp = 1\<rparr>) = [CHR ''a'']"
    "bare_label (label \<lparr>event_type = Key, label = ''@key[b]'', timestamp = 2\<rparr>) = [CHR ''b'']"
    "bare_label (label \<lparr>event_type = Key, label = ''@key[c]'', timestamp = 3\<rparr>) = [CHR ''c'']"
    by (simp_all add: bare_label_def strip_key_prefix_def strip_close_def)
  have chars: "alnum CHR ''a''" "alnum CHR ''b''" "alnum CHR ''c''"
    by (simp_all add: alnum_def in_range_def)
  have fresh: "\<not> (last_event_type [] = Some Key
                   \<and> (label (payload (last [])) = label \<lparr>event_type = Key, label = ''@key[a]'', timestamp = 1\<rparr>
                        \<or> isTypingSequence (last []) = Some True))"
    by (simp add: last_event_type_def)
  have "\<exists>logs1 logs2 logs3 row.
         on_input_event Map.empty 0 0 False
           \<lparr>event_type = Key, label = ''@key[a]'', timestamp = 1\<rparr> [] = Inr logs1
         \<and> on_input_event Map.empty 0 0 False
             \<lparr>event_type = Key, label = ''@key[b]'', timestamp = 2\<rparr> logs1 = Inr logs2
         \<and> on_input_event Map.empty 0 0 False
             \<lparr>event_type = Key, label = ''@key[c]'', timestamp = 3\<rparr> logs2 = Inr logs3
         \<and> logs3 = [row]
         \<and> getDisplayLabel (payload row) = ''abc''
         \<and> count row = 1
         \<and> timestamp (payload row) = 3
         \<and> id_item row = 0
         \<and> isTypingSequence row = Some True"
    using typing_assembly [OF _ _ _ bare chars _ fresh, of Map.empty 0 0 0 0 0 0] by simp
  with bare chars show ?thesis
    by (simp add: last_event_type_def)
qed

subsection \<open>Clicks without a button name\<close>

text \<open>
  Claim C10. A click or double-click whose first bracketed group is empty is not
  de-duplicated: the updater filters nothing and takes the default path, which appends a
  row with \<open>count\<close> 1 and keeps the last 20 rows, so the result has at most 20 rows and
  consists of the old rows (all of them when there were fewer than 20) followed by the new
  row. This is the result for an event of the same kind whose label has no bracketed group
  at all.
\<close>

theorem empty_button_name_default_add:
  assumes "event_type newEvent = Click \<or> event_type newEvent = Doubleclick"
    and "btnMatch (label newEvent) = Some []"
  shows "on_input_event rx now rnd False newEvent prevLogs =
           Inr (keep_last20
                  (prevLogs @ [\<lparr>id_item = of_int now + rnd, payload = newEvent, count = 1,
                                isTypingSequence = None\<rparr>]))
         \<and> on_input_event rx now rnd False newEvent prevLogs =
           Inr (drop (length prevLogs - 19) prevLogs
                  @ [\<lparr>id_item = of_int now + rnd, payload = newEvent, count = 1,
                      isTypingSequence = None\<rparr>])
         \<and> (\<forall>newLogs. on_input_event rx now rnd False newEvent prevLogs = Inr newLogs \<longrightarrow>
               length newLogs \<le> 20)
         \<and> (\<forall>other. event_type other = event_type newEvent \<and> btnMatch (label other) = None \<longrightarrow>
               on_input_event rx now rnd False other prevLogs =
                 Inr (keep_last20
                        (prevLogs @ [\<lparr>id_item = of_int now + rnd, payload = other, count = 1,
                                      isTypingSequence = None\<rparr>])))"
  using assms
  by (auto simp add: on_input_event_def setLogs_updater_def keep_last20_snoc)

theorem empty_button_name_default_add_witness:
  "btnMatch (label \<lparr>event_type = Click, label = ''@mouse[]'', timestamp = 40\<rparr>) = Some []
   \<and> on_input_event Map.empty 0 0 False
        \<lparr>event_type = Click, label = ''@mouse[]'', timestamp = 40\<rparr>
        [\<lparr>id_item = 2, payload = \<lparr>event_type = Mousedown, label = ''@mouse[]'', timestamp = 30\<rparr>,
          count = 1, isTypingSequence = None\<rparr>]
      = Inr [\<lparr>id_item = 2,
              payload = \<lparr>event_type = Mousedown, label = ''@mouse[]'', timestamp = 30\<rparr>,
              count = 1, isTypingSequence = None\<rparr>,
             \<lparr>id_item = 0, payload = \<lparr>event_type = Click, label = ''@mouse[]'', timestamp = 40\<rparr>,
              count = 1, isTypingSequence = None\<rparr>]
   \<and> btnMatch (label \<lparr>event_type = Click, label = ''mouse'', timestamp = 40\<rparr>) = None
   \<and> on_input_event Map.empty 0 0 False
        \<lparr>event_type = Click, label = ''mouse'', timestamp = 40\<rparr> []
      = Inr [\<lparr>id_item = 0, payload = \<lparr>event_type = Click, label = ''mouse'', timestamp = 40\<rparr>,
              count = 1, isTypingSequence = None\<rparr>]"
proof -
  have empty_name: "btnMatch (label \<lparr>event_type = Click, label = ''@mouse[]'', timestamp = 40\<rparr>) = Some []"
    and no_name: "btnMatch (label \<lparr>event_type = Click, label = ''mouse'', timestamp = 40\<rparr>) = None"
    by simp_all
  show ?thesis
    using empty_name no_name
      empty_button_name_default_add [of
        "\<lparr>event_type = Click, label = ''@mouse[]'', timestamp = 40\<rparr>" Map.empty 0 0
        "[\<lparr>id_item = 2,
           payload = \<lparr>event_type = Mousedown, label = ''@mouse[]'', timestamp = 30\<rparr>,
           count = 1, isTypingSequence = None\<rparr>]"]
      empty_button_name_default_add [of
        "\<lparr>event_type = Click, label = ''@mouse[]'', timestamp = 40\<rparr>" Map.empty 0 0 "[]"]
    by (simp add: keep_last20_def)
qed

subsection \<open>Capacity\<close>

lemma keeps_system_row: "System \<notin> set kinds \<Longrightarrow> keeps kinds pat newEvent (system_row i)"
  by (simp add: keeps_def system_row_def)

lemma filter_system_rows:
  "System \<notin> set kinds \<Longrightarrow> filter (keeps kinds pat newEvent) (system_rows n) = system_rows n"
  by (simp add: system_rows_def keeps_system_row)

lemma length_system_rows: "length (system_rows n) = n"
  by (simp add: system_rows_def)

lemma last_event_type_system_rows: "0 < n \<Longrightarrow> last_event_type (system_rows n) = Some System"
  by (simp add: last_event_type_def system_rows_def last_map system_row_def)

lemma clickPattern_Left:
  "clickPattern rx ''Left'' =
     Some (matches_somewhere [Lit CHR ''['', Lit CHR ''L'', Lit CHR ''e'', Lit CHR ''f'',
                              Lit CHR ''t'', Lit CHR '']''])"
  by (simp add: clickPattern_def new_RegExp_def syntax_char_def)

text \<open>
  Outside the two cleanup branches a log of at most 20 rows stays within 20 rows; a cleanup
  branch adds at most one row to what it was given.
\<close>

lemma length_key_update:
  "length prevLogs \<le> 20 \<Longrightarrow> length (key_update new_id newEvent prevLogs) \<le> 20"
  by (auto simp add: key_update_def Let_def last_event_type_def length_keep_last20
      split: if_splits)

lemma capacity_without_button_name:
  assumes "length prevLogs \<le> 20"
    and "event_type newEvent = Click \<or> event_type newEvent = Doubleclick \<longrightarrow>
           btnMatch (label newEvent) = None \<or> btnMatch (label newEvent) = Some []"
  shows "\<exists>newLogs. on_input_event rx now rnd paused newEvent prevLogs = Inr newLogs
           \<and> length newLogs \<le> 20"
  using assms
  by (auto simp add: on_input_event_def setLogs_updater_def last_event_type_def
      length_key_update length_keep_last20)

lemma length_cleanup:
  "cleanup rx kinds btnName new_id newEvent prevLogs = Inr newLogs \<Longrightarrow>
     length newLogs \<le> Suc (length prevLogs)"
  by (auto simp add: cleanup_def split: option.splits)

text \<open>
  Claim C1 asks that the log has at most 20 rows after every update, on the click and
  double-click branches too. The key branch and the default branch slice the new log to its
  last 20 rows; the two cleanup branches return the filtered log with the new row appended
  and never slice. The evaluation below is the click branch on a log of 20 \<^verbatim>\<open>system\<close>
  rows, none of which the filter removes: the result has 21 rows.
\<close>

theorem click_on_full_log_exceeds_capacity:
  "length (system_rows 20) = 20
   \<and> on_input_event rx now rnd False
        \<lparr>event_type = Click, label = ''@mouse[Left]'', timestamp = 100\<rparr> (system_rows 20)
      = Inr (system_rows 20
             @ [\<lparr>id_item = of_int now + rnd,
                 payload = \<lparr>event_type = Click, label = ''@mouse[Left]'', timestamp = 100\<rparr>,
                 count = 1, isTypingSequence = None\<rparr>])
   \<and> length (system_rows 20
             @ [\<lparr>id_item = of_int now + rnd,
                 payload = \<lparr>event_type = Click, label = ''@mouse[Left]'', timestamp = 100\<rparr>,
                 count = 1, isTypingSequence = None\<rparr>]) = 21"
  by (simp add: on_input_event_def setLogs_updater_def cleanup_def clickPattern_Left
      line_terminator_def filter_system_rows length_system_rows)

text \<open>
  On the key branch and on the default branch a full log loses its oldest row: when the
  event is appended there, the new log is the old one without its first row, in the same
  order, followed by the new row.
\<close>

lemma fifo_eviction_on_append:
  assumes "length prevLogs = 20"
    and "\<not> (event_type newEvent = Mousemove \<and> last_event_type prevLogs = Some Mousemove)"
    and "event_type newEvent = Key \<longrightarrow>
           \<not> (last_event_type prevLogs = Some Key
              \<and> (label (payload (last prevLogs)) = label newEvent
                   \<or> isTextKey (bare_label (label newEvent))
                      \<and> isTypingSequence (last prevLogs) = Some True))"
    and "event_type newEvent = Click \<or> event_type newEvent = Doubleclick \<longrightarrow>
           btnMatch (label newEvent) = None \<or> btnMatch (label newEvent) = Some []"
  shows "on_input_event rx now rnd False newEvent prevLogs =
           Inr (tl prevLogs
                @ [\<lparr>id_item = of_int now + rnd, payload = newEvent, count = 1,
                    isTypingSequence =
                      (if event_type newEvent = Key
                       then Some (isTextKey (bare_label (label newEvent))) else None)\<rparr>])"
proof (cases "event_type newEvent = Key")
  case True
  with assms(1,3) show ?thesis
    by (simp add: on_input_event_def setLogs_updater_def key_update_new drop_Suc)
next
  case False
  with assms(1,2,4) show ?thesis
    by (auto simp add: on_input_event_def setLogs_updater_def keep_last20_snoc drop_Suc)
qed

lemma fifo_eviction_on_append_example:
  "length (system_rows 20) = 20
   \<and> on_input_event Map.empty 0 0 False
        \<lparr>event_type = Key, label = ''@key[Enter]'', timestamp = 100\<rparr> (system_rows 20)
      = Inr (tl (system_rows 20)
             @ [\<lparr>id_item = 0,
                 payload = \<lparr>event_type = Key, label = ''@key[Enter]'', timestamp = 100\<rparr>,
                 count = 1, isTypingSequence = Some False\<rparr>])"
proof -
  have full: "length (system_rows 20) = 20"
    by (simp add: length_system_rows)
  have tail: "last_event_type (system_rows 20) = Some System"
    by (simp add: last_event_type_system_rows)
  have word: "\<not> isTextKey (bare_label ''@key[Enter]'')"
    by (simp add: bare_label_def strip_key_prefix_def strip_close_def isTextKey_def)
  show ?thesis
    using full tail word
      fifo_eviction_on_append [of "system_rows 20"
        "\<lparr>event_type = Key, label = ''@key[Enter]'', timestamp = 100\<rparr>" Map.empty 0 0]
    by simp
qed

lemma hd_system_rows: "0 < n \<Longrightarrow> hd (system_rows n @ rows) = system_row 0"
  by (simp add: system_rows_def upt_conv_Cons)

text \<open>
  Claim C5 asks that an event which opens a new row on a full log of 20 rows evicts exactly
  the oldest row, so that the result is the other 19 rows in order followed by the new row.
  A click that carries a button name opens a new row through the click branch, which
  returns without the slice of the key and default branches. The evaluation below is a
  click on a full log of \<^verbatim>\<open>system\<close> rows, none of which the filter removes: nothing is
  evicted, the oldest row is still the first one, and the result is not the old log without
  its first row followed by the click.
\<close>

theorem named_click_on_full_log_evicts_nothing:
  "length (system_rows 20) = 20
   \<and> on_input_event rx now rnd False
        \<lparr>event_type = Click, label = ''@mouse[Left]'', timestamp = 100\<rparr> (system_rows 20)
      = Inr (system_rows 20
             @ [\<lparr>id_item = of_int now + rnd,
                 payload = \<lparr>event_type = Click, label = ''@mouse[Left]'', timestamp = 100\<rparr>,
                 count = 1, isTypingSequence = None\<rparr>])
   \<and> on_input_event rx now rnd False
        \<lparr>event_type = Click, label = ''@mouse[Left]'', timestamp = 100\<rparr> (system_rows 20)
      \<noteq> Inr (tl (system_rows 20)
             @ [\<lparr>id_item = of_int now + rnd,
                 payload = \<lparr>event_type = Click, label = ''@mouse[Left]'', timestamp = 100\<rparr>,
                 count = 1, isTypingSequence = None\<rparr>])
   \<and> hd (system_rows 20
           @ [\<lparr>id_item = of_int now + rnd,
               payload = \<lparr>event_type = Click, label = ''@mouse[Left]'', timestamp = 100\<rparr>,
               count = 1, isTypingSequence = None\<rparr>]) = system_row 0"
proof -
  let ?click = "\<lparr>id_item = of_int now + rnd,
                 payload = \<lparr>event_type = Click, label = ''@mouse[Left]'', timestamp = 100\<rparr>,
                 count = 1, isTypingSequence = None\<rparr>"
  have result: "on_input_event rx now rnd False
        \<lparr>event_type = Click, label = ''@mouse[Left]'', timestamp = 100\<rparr> (system_rows 20)
      = Inr (system_rows 20 @ [?click])"
    by (simp add: on_input_event_def setLogs_updater_def cleanup_def clickPattern_Left
        line_terminator_def filter_system_rows)
  have "length (system_rows 20 @ [?click]) \<noteq> length (tl (system_rows 20) @ [?click])"
    by (simp add: length_system_rows)
  then have differ: "system_rows 20 @ [?click] \<noteq> tl (system_rows 20) @ [?click]"
    by metis
  have oldest: "hd (system_rows 20 @ [?click]) = system_row 0"
    by (rule hd_system_rows) simp
  from result differ oldest show ?thesis
    by (simp add: length_system_rows)
qed

subsection \<open>The id of a new row\<close>

text \<open>
  Claim C4 as stated makes the new log a function of the previous log, the event and the
  paused flag alone, the id of a new row included. The id is \<^verbatim>\<open>Date.now() + Math.random()\<close>:
  two applications to the same log and event that read different clock values create rows
  with different ids.
\<close>

theorem new_id_counterexample:
  "on_input_event Map.empty 0 0 False
     \<lparr>event_type = System, label = ''@system[Focus]'', timestamp = 5\<rparr> []
   \<noteq> on_input_event Map.empty 1 0 False
     \<lparr>event_type = System, label = ''@system[Focus]'', timestamp = 5\<rparr> []"
  by (simp add: on_input_event_def setLogs_updater_def last_event_type_def keep_last20_def)

lemma cleanup_ids:
  "(new_id = new_id' \<longrightarrow>
      cleanup rx kinds btnName new_id newEvent prevLogs
      = cleanup rx kinds btnName new_id' newEvent prevLogs)
   \<and> (\<forall>e. cleanup rx kinds btnName new_id newEvent prevLogs = Inl e
          \<longleftrightarrow> cleanup rx kinds btnName new_id' newEvent prevLogs = Inl e)
   \<and> (\<forall>newLogs newLogs'.
         cleanup rx kinds btnName new_id newEvent prevLogs = Inr newLogs
         \<and> cleanup rx kinds btnName new_id' newEvent prevLogs = Inr newLogs' \<longrightarrow>
         length newLogs = length newLogs' \<and> butlast newLogs = butlast newLogs'
         \<and> (newLogs \<noteq> [] \<longrightarrow>
               (last newLogs)\<lparr>id_item := 0\<rparr> = (last newLogs')\<lparr>id_item := 0\<rparr>))"
  by (auto simp add: cleanup_def split: option.splits)

lemma key_update_ids:
  "length (key_update new_id newEvent prevLogs) = length (key_update new_id' newEvent prevLogs)
   \<and> butlast (key_update new_id newEvent prevLogs) = butlast (key_update new_id' newEvent prevLogs)
   \<and> (last (key_update new_id newEvent prevLogs))\<lparr>id_item := 0\<rparr>
       = (last (key_update new_id' newEvent prevLogs))\<lparr>id_item := 0\<rparr>"
  by (simp add: key_update_def Let_def keep_last20_snoc butlast_append)

lemma setLogs_updater_ids:
  "(real_of_int now + rnd = real_of_int now' + rnd' \<longrightarrow>
      setLogs_updater rx now rnd newEvent prevLogs
      = setLogs_updater rx now' rnd' newEvent prevLogs)
   \<and> (\<forall>e. setLogs_updater rx now rnd newEvent prevLogs = Inl e
          \<longleftrightarrow> setLogs_updater rx now' rnd' newEvent prevLogs = Inl e)
   \<and> (\<forall>newLogs newLogs'.
         setLogs_updater rx now rnd newEvent prevLogs = Inr newLogs
         \<and> setLogs_updater rx now' rnd' newEvent prevLogs = Inr newLogs' \<longrightarrow>
         length newLogs = length newLogs' \<and> butlast newLogs = butlast newLogs'
         \<and> (newLogs \<noteq> [] \<longrightarrow>
               (last newLogs)\<lparr>id_item := 0\<rparr> = (last newLogs')\<lparr>id_item := 0\<rparr>))"
proof -
  let ?i = "real_of_int now + rnd" and ?i' = "real_of_int now' + rnd'"
  consider
    (move) "event_type newEvent = Mousemove" "last_event_type prevLogs = Some Mousemove"
    | (key) "event_type newEvent = Key"
    | (click) "event_type newEvent = Click" "btnMatch (label newEvent) \<noteq> None"
        "btnMatch (label newEvent) \<noteq> Some []"
    | (doubleclick) "event_type newEvent = Doubleclick" "btnMatch (label newEvent) \<noteq> None"
        "btnMatch (label newEvent) \<noteq> Some []"
    | (add) "\<not> (event_type newEvent = Mousemove \<and> last_event_type prevLogs = Some Mousemove)"
        "event_type newEvent \<noteq> Key"
        "\<not> (event_type newEvent = Click \<and> btnMatch (label newEvent) \<noteq> None
            \<and> btnMatch (label newEvent) \<noteq> Some [])"
        "\<not> (event_type newEvent = Doubleclick \<and> btnMatch (label newEvent) \<noteq> None
            \<and> btnMatch (label newEvent) \<noteq> Some [])"
    by blast
  then show ?thesis
  proof cases
    case move
    then show ?thesis
      by (simp add: setLogs_updater_def)
  next
    case key
    then have "setLogs_updater rx now rnd newEvent prevLogs = Inr (key_update ?i newEvent prevLogs)"
      and "setLogs_updater rx now' rnd' newEvent prevLogs = Inr (key_update ?i' newEvent prevLogs)"
      by (simp_all add: setLogs_updater_def)
    then show ?thesis
      using key_update_ids [of ?i newEvent prevLogs ?i'] by simp
  next
    case click
    then have "setLogs_updater rx now rnd newEvent prevLogs =
        cleanup rx [Mousedown, Mouseup] (the (btnMatch (label newEvent))) ?i newEvent prevLogs"
      and "setLogs_updater rx now' rnd' newEvent prevLogs =
        cleanup rx [Mousedown, Mouseup] (the (btnMatch (label newEvent))) ?i' newEvent prevLogs"
      by (simp_all add: setLogs_updater_def)
    then show ?thesis
      using cleanup_ids [of ?i ?i' rx "[Mousedown, Mouseup]" "the (btnMatch (label newEvent))"
          newEvent prevLogs]
      by simp
  next
    case doubleclick
    then have "setLogs_updater rx now rnd newEvent prevLogs =
        cleanup rx [Click, Mousedown, Mouseup] (the (btnMatch (label newEvent))) ?i newEvent
          prevLogs"
      and "setLogs_updater rx now' rnd' newEvent prevLogs =
        cleanup rx [Click, Mousedown, Mouseup] (the (btnMatch (label newEvent))) ?i' newEvent
          prevLogs"
      by (simp_all add: setLogs_updater_def)
    then show ?thesis
      using cleanup_ids [of ?i ?i' rx "[Click, Mousedown, Mouseup]"
          "the (btnMatch (label newEvent))" newEvent prevLogs]
      by simp
  next
    case add
    then have "setLogs_updater rx now rnd newEvent prevLogs =
        Inr (keep_last20 (prevLogs @ [\<lparr>id_item = ?i, payload = newEvent, count = 1,
                                        isTypingSequence = None\<rparr>]))"
      and "setLogs_updater rx now' rnd' newEvent prevLogs =
        Inr (keep_last20 (prevLogs @ [\<lparr>id_item = ?i', payload = newEvent, count = 1,
                                        isTypingSequence = None\<rparr>]))"
      by (auto simp add: setLogs_updater_def)
    then show ?thesis
      by (simp add: keep_last20_snoc butlast_append)
  qed
qed

text \<open>
  Claim C4, amended. The update is a function of the previous log, the incoming event, the
  paused flag and the two values read from the clock and the random source, whose sum is
  the id of a row that the update creates. Two applications to the same log and event that
  read the same id return the same result. Two applications that read different values
  fail together or not at all, and return logs of the same length that agree in every row
  before the last and in every field of the last row other than its id.
\<close>

theorem update_determined_up_to_new_id:
  "(real_of_int now + rnd = real_of_int now' + rnd' \<longrightarrow>
      on_input_event rx now rnd paused newEvent prevLogs
      = on_input_event rx now' rnd' paused newEvent prevLogs)
   \<and> (\<forall>e. on_input_event rx now rnd paused newEvent prevLogs = Inl e
          \<longleftrightarrow> on_input_event rx now' rnd' paused newEvent prevLogs = Inl e)
   \<and> (\<forall>newLogs newLogs'.
         on_input_event rx now rnd paused newEvent prevLogs = Inr newLogs
         \<and> on_input_event rx now' rnd' paused newEvent prevLogs = Inr newLogs' \<longrightarrow>
         length newLogs = length newLogs' \<and> butlast newLogs = butlast newLogs'
         \<and> (newLogs \<noteq> [] \<longrightarrow>
               (last newLogs)\<lparr>id_item := 0\<rparr> = (last newLogs')\<lparr>id_item := 0\<rparr>))"
proof (cases paused)
  case True
  then show ?thesis
    by (simp add: on_input_event_def)
next
  case False
  then show ?thesis
    using setLogs_updater_ids [of now rnd now' rnd' rx newEvent prevLogs]
    by (simp add: on_input_event_def)
qed

theorem update_determined_up_to_new_id_witness:
  "real_of_int 1700000000000 + 1 / 4 = real_of_int 1700000000000 + 1 / 4
   \<and> on_input_event Map.empty 1700000000000 (1 / 4) False
        \<lparr>event_type = System, label = ''@system[Focus]'', timestamp = 5\<rparr> []
     = on_input_event Map.empty 1700000000000 (1 / 4) False
        \<lparr>event_type = System, label = ''@system[Focus]'', timestamp = 5\<rparr> []
   \<and> on_input_event Map.empty 1700000000000 (1 / 4) False
        \<lparr>event_type = System, label = ''@system[Focus]'', timestamp = 5\<rparr> []
     = Inr [\<lparr>id_item = 1700000000000 + 1 / 4,
             payload = \<lparr>event_type = System, label = ''@system[Focus]'', timestamp = 5\<rparr>,
             count = 1, isTypingSequence = None\<rparr>]
   \<and> on_input_event Map.empty 1700000000001 (3 / 4) False
        \<lparr>event_type = System, label = ''@system[Focus]'', timestamp = 5\<rparr> []
     = Inr [\<lparr>id_item = 1700000000001 + 3 / 4,
             payload = \<lparr>event_type = System, label = ''@system[Focus]'', timestamp = 5\<rparr>,
             count = 1, isTypingSequence = None\<rparr>]
   \<and> length [\<lparr>id_item = 1700000000000 + 1 / 4,
             payload = \<lparr>event_type = System, label = ''@system[Focus]'', timestamp = 5\<rparr>,
             count = 1, isTypingSequence = None\<rparr>]
     = length [\<lparr>id_item = 1700000000001 + 3 / 4,
             payload = \<lparr>event_type = System, label = ''@system[Focus]'', timestamp = 5\<rparr>,
             count = 1, isTypingSequence = None\<rparr>]
   \<and> (last [\<lparr>id_item = 1700000000000 + 1 / 4,
             payload = \<lparr>event_type = System, label = ''@system[Focus]'', timestamp = 5\<rparr>,
             count = 1, isTypingSequence = None\<rparr>])\<lparr>id_item := 0\<rparr>
     = (last [\<lparr>id_item = 1700000000001 + 3 / 4,
             payload = \<lparr>event_type = System, label = ''@system[Focus]'', timestamp = 5\<rparr>,
             count = 1, isTypingSequence = None\<rparr>])\<lparr>id_item := 0\<rparr>"
proof -
  have first: "on_input_event Map.empty 1700000000000 (1 / 4) False
        \<lparr>event_type = System, label = ''@system[Focus]'', timestamp = 5\<rparr> []
     = Inr [\<lparr>id_item = 1700000000000 + 1 / 4,
             payload = \<lparr>event_type = System, label = ''@system[Focus]'', timestamp = 5\<rparr>,
             count = 1, isTypingSequence = None\<rparr>]"
    and second: "on_input_event Map.empty 1700000000001 (3 / 4) False
        \<lparr>event_type = System, label = ''@system[Focus]'', timestamp = 5\<rparr> []
     = Inr [\<lparr>id_item = 1700000000001 + 3 / 4,
             payload = \<lparr>event_type = System, label = ''@system[Focus]'', timestamp = 5\<rparr>,
             count = 1, isTypingSequence = None\<rparr>]"
    by (simp_all add: on_input_event_def setLogs_updater_def last_event_type_def keep_last20_def)
  show ?thesis
    using first second
      update_determined_up_to_new_id [of 1700000000000 "1 / 4" 1700000000000 "1 / 4" Map.empty
        False "\<lparr>event_type = System, label = ''@system[Focus]'', timestamp = 5\<rparr>" "[]"]
      update_determined_up_to_new_id [of 1700000000000 "1 / 4" 1700000000001 "3 / 4" Map.empty
        False "\<lparr>event_type = System, label = ''@system[Focus]'', timestamp = 5\<rparr>" "[]"]
    by simp
qed

subsection \<open>De-duplication of clicks and double-clicks\<close>

text \<open>
  A button name without syntax characters of the pattern language yields a pattern that
  searches for the bracketed name as it is written. For such names the two cleanup branches
  drop the rows that are not older than 500 ms, have one of the listed kinds and whose
  label contains the bracketed name, keep every other row in order, and append the new row.
\<close>

lemma parse_atoms_literal_close:
  "\<forall>c\<in>set b. \<not> syntax_char c \<Longrightarrow>
     parse_atoms (b @ [CHR 0x5C, CHR '']'']) = Some (map Lit b @ [Lit CHR '']''])"
proof (induction b)
  case Nil
  show ?case by simp
next
  case (Cons c cs)
  then have c: "\<not> syntax_char c" "c \<noteq> CHR 0x5C" "c \<noteq> CHR ''.''"
    by (auto simp add: syntax_char_def)
  obtain d ds where rest: "cs @ [CHR 0x5C, CHR '']''] = d # ds"
    by (cases cs) auto
  have "parse_atoms (c # d # ds) = map_option ((#) (Lit c)) (parse_atoms (d # ds))"
    using c by simp
  with rest Cons show ?case
    by simp
qed

lemma clickPattern_literal:
  assumes "\<forall>c\<in>set b. \<not> syntax_char c"
  shows "clickPattern rx b = Some (matches_somewhere (map Lit (''['' @ b @ '']'')))"
  using parse_atoms_literal_close [OF assms]
  by (simp add: clickPattern_def new_RegExp_def)

lemma matches_here_literal: "matches_here (map Lit s) l \<longleftrightarrow> (\<exists>post. l = s @ post)"
proof (induction s arbitrary: l)
  case Nil
  show ?case by simp
next
  case (Cons a s)
  then show ?case by (cases l) auto
qed

lemma matches_somewhere_literal:
  "matches_somewhere (map Lit s) l \<longleftrightarrow> (\<exists>pre post. l = pre @ s @ post)"
proof (induction l)
  case Nil
  show ?case by (simp add: matches_here_literal)
next
  case (Cons c cs)
  have "(\<exists>pre post. c # cs = pre @ s @ post)
        \<longleftrightarrow> (\<exists>post. c # cs = s @ post) \<or> (\<exists>pre post. cs = pre @ s @ post)"
    by (auto simp add: Cons_eq_append_conv)
  with Cons show ?case
    by (simp add: matches_here_literal)
qed

lemma cleanup_literal_name:
  assumes "\<forall>c\<in>set b. \<not> syntax_char c"
  shows "cleanup rx kinds b new_id newEvent prevLogs =
           Inr (filter
                  (\<lambda>row. \<not> (timestamp newEvent - timestamp (payload row) \<le> 500
                            \<and> event_type (payload row) \<in> set kinds
                            \<and> (\<exists>pre post. label (payload row) = pre @ ''['' @ b @ '']'' @ post)))
                  prevLogs
                @ [\<lparr>id_item = new_id, payload = newEvent, count = 1, isTypingSequence = None\<rparr>])"
proof -
  have "keeps kinds (matches_somewhere (map Lit (''['' @ b @ '']''))) newEvent =
          (\<lambda>row. \<not> (timestamp newEvent - timestamp (payload row) \<le> 500
                     \<and> event_type (payload row) \<in> set kinds
                     \<and> (\<exists>pre post. label (payload row) = pre @ ''['' @ b @ '']'' @ post)))"
    unfolding keeps_def matches_somewhere_literal by (rule ext) auto
  then show ?thesis
    by (simp add: cleanup_def clickPattern_literal [OF assms])
qed

lemma click_cleanup_keeps_click_rows:
  "event_type (payload row) = Click \<Longrightarrow> keeps [Mousedown, Mouseup] pat newEvent row"
  by (simp add: keeps_def)

lemma click_cleanup_literal_name:
  assumes "event_type newEvent = Click"
    and "btnMatch (label newEvent) = Some b" and "b \<noteq> []"
    and "\<forall>c\<in>set b. \<not> syntax_char c"
  shows "on_input_event rx now rnd False newEvent prevLogs =
           Inr (filter
                  (\<lambda>row. \<not> (timestamp newEvent - timestamp (payload row) \<le> 500
                            \<and> (event_type (payload row) = Mousedown
                                 \<or> event_type (payload row) = Mouseup)
                            \<and> (\<exists>pre post. label (payload row) = pre @ ''['' @ b @ '']'' @ post)))
                  prevLogs
                @ [\<lparr>id_item = of_int now + rnd, payload = newEvent, count = 1,
                    isTypingSequence = None\<rparr>])"
  using assms(1-3) cleanup_literal_name [OF assms(4), of rx "[Mousedown, Mouseup]"]
  by (simp add: on_input_event_def setLogs_updater_def)

lemma doubleclick_cleanup_literal_name:
  assumes "event_type newEvent = Doubleclick"
    and "btnMatch (label newEvent) = Some b" and "b \<noteq> []"
    and "\<forall>c\<in>set b. \<not> syntax_char c"
  shows "on_input_event rx now rnd False newEvent prevLogs =
           Inr (filter
                  (\<lambda>row. \<not> (timestamp newEvent - timestamp (payload row) \<le> 500
                            \<and> (event_type (payload row) = Click
                                 \<or> event_type (payload row) = Mousedown
                                 \<or> event_type (payload row) = Mouseup)
                            \<and> (\<exists>pre post. label (payload row) = pre @ ''['' @ b @ '']'' @ post)))
                  prevLogs
                @ [\<lparr>id_item = of_int now + rnd, payload = newEvent, count = 1,
                    isTypingSequence = None\<rparr>])"
  using assms(1-3) cleanup_literal_name [OF assms(4), of rx "[Click, Mousedown, Mouseup]"]
  by (simp add: on_input_event_def setLogs_updater_def)

text \<open>
  Claim C7 asks that a click drops the pointer-down and pointer-up rows whose label contains
  the same bracketed identifier, and retains rows with a different identifier. The name is
  pasted into the pattern without escaping, so a name that contains pattern syntax is not
  compared as text. Below, the click is labelled \<^verbatim>\<open>@mouse[.]\<close>; its pattern
  \<^verbatim>\<open>\[.\]\<close> matches the label \<^verbatim>\<open>@mouse[x]\<close> of a pointer-down row, which does not
  contain \<^verbatim>\<open>[.]\<close>, and the row is dropped.
\<close>

theorem click_wildcard_name:
  "btnMatch ''@mouse[.]'' = Some ''.''
   \<and> \<not> matches_somewhere (map Lit ''[.]'') ''@mouse[x]''
   \<and> on_input_event rx now rnd False
        \<lparr>event_type = Click, label = ''@mouse[.]'', timestamp = 50\<rparr>
        [\<lparr>id_item = 1,
          payload = \<lparr>event_type = Mousedown, label = ''@mouse[x]'', timestamp = 0\<rparr>,
          count = 1, isTypingSequence = None\<rparr>]
      = Inr [\<lparr>id_item = of_int now + rnd,
              payload = \<lparr>event_type = Click, label = ''@mouse[.]'', timestamp = 50\<rparr>,
              count = 1, isTypingSequence = None\<rparr>]"
  by (simp add: on_input_event_def setLogs_updater_def cleanup_def clickPattern_def
      new_RegExp_def keeps_def line_terminator_def syntax_char_def last_event_type_def)

text \<open>
  Claim C8 asks that a double-click drops, beyond what a click drops, the click rows that
  bear the same bracketed identifier. The double-click branch builds its pattern in the same
  way as the click branch: below, a double-click labelled \<^verbatim>\<open>@mouse[.]\<close> drops a click
  row labelled \<^verbatim>\<open>@mouse[x]\<close>, whose identifier is a different one.
\<close>

theorem doubleclick_wildcard_name:
  "btnMatch ''@mouse[.]'' = Some ''.''
   \<and> \<not> matches_somewhere (map Lit ''[.]'') ''@mouse[x]''
   \<and> on_input_event rx now rnd False
        \<lparr>event_type = Doubleclick, label = ''@mouse[.]'', timestamp = 100\<rparr>
        [\<lparr>id_item = 1,
          payload = \<lparr>event_type = Click, label = ''@mouse[x]'', timestamp = 0\<rparr>,
          count = 1, isTypingSequence = None\<rparr>]
      = Inr [\<lparr>id_item = of_int now + rnd,
              payload = \<lparr>event_type = Doubleclick, label = ''@mouse[.]'', timestamp = 100\<rparr>,
              count = 1, isTypingSequence = None\<rparr>]"
  by (simp add: on_input_event_def setLogs_updater_def cleanup_def clickPattern_def
      new_RegExp_def keeps_def line_terminator_def syntax_char_def last_event_type_def)

end
